theory Spec2Isabelle
  imports Complex_Main
begin

section \<open>Numbers and arrays of the notebook\<close>

text \<open>
  The notebook computes with NumPy \<open>float64\<close> values.  They are modelled as exact reals
  extended by the three special values of IEEE 754, so that a division by zero gives
  what NumPy gives (an infinity, or NaN for \<open>0/0\<close>) instead of a HOL default.  Rounding,
  overflow of finite results and the sign of zero are not modelled; every zero is \<open>+0.0\<close>,
  which is the only zero the divisors of the source can take (\<open>1.0 - exp(..)\<close> and the
  constant \<open>C_m\<close>).
\<close>

datatype npfloat = Finite real | PosInf | NegInf | NaN

instantiation npfloat :: "{zero,one,plus,uminus,minus,times,inverse,ord,power}"
begin

definition zero_npfloat :: npfloat where
  "zero_npfloat = Finite 0"

definition one_npfloat :: npfloat where
  "one_npfloat = Finite 1"

fun plus_npfloat :: "npfloat \<Rightarrow> npfloat \<Rightarrow> npfloat" where
  "plus_npfloat NaN b = NaN"
| "plus_npfloat a NaN = NaN"
| "plus_npfloat (Finite a) (Finite b) = Finite (a + b)"
| "plus_npfloat PosInf NegInf = NaN"
| "plus_npfloat NegInf PosInf = NaN"
| "plus_npfloat PosInf b = PosInf"
| "plus_npfloat NegInf b = NegInf"
| "plus_npfloat (Finite a) b = b"

fun uminus_npfloat :: "npfloat \<Rightarrow> npfloat" where
  "uminus_npfloat (Finite a) = Finite (- a)"
| "uminus_npfloat PosInf = NegInf"
| "uminus_npfloat NegInf = PosInf"
| "uminus_npfloat NaN = NaN"

definition minus_npfloat :: "npfloat \<Rightarrow> npfloat \<Rightarrow> npfloat" where
  "minus_npfloat a b = a + (- b)"

fun times_npfloat :: "npfloat \<Rightarrow> npfloat \<Rightarrow> npfloat" where
  "times_npfloat NaN b = NaN"
| "times_npfloat a NaN = NaN"
| "times_npfloat (Finite a) (Finite b) = Finite (a * b)"
| "times_npfloat (Finite a) PosInf = (if a = 0 then NaN else if 0 < a then PosInf else NegInf)"
| "times_npfloat (Finite a) NegInf = (if a = 0 then NaN else if 0 < a then NegInf else PosInf)"
| "times_npfloat PosInf (Finite b) = (if b = 0 then NaN else if 0 < b then PosInf else NegInf)"
| "times_npfloat NegInf (Finite b) = (if b = 0 then NaN else if 0 < b then NegInf else PosInf)"
| "times_npfloat PosInf PosInf = PosInf"
| "times_npfloat NegInf NegInf = PosInf"
| "times_npfloat PosInf NegInf = NegInf"
| "times_npfloat NegInf PosInf = NegInf"

fun divide_npfloat :: "npfloat \<Rightarrow> npfloat \<Rightarrow> npfloat" where
  "divide_npfloat NaN b = NaN"
| "divide_npfloat a NaN = NaN"
| "divide_npfloat (Finite a) (Finite b) =
     (if b = 0 then (if a = 0 then NaN else if 0 < a then PosInf else NegInf)
      else Finite (a / b))"
| "divide_npfloat (Finite a) b = Finite 0"
| "divide_npfloat PosInf (Finite b) = (if 0 \<le> b then PosInf else NegInf)"
| "divide_npfloat NegInf (Finite b) = (if 0 \<le> b then NegInf else PosInf)"
| "divide_npfloat a b = NaN"

definition inverse_npfloat :: "npfloat \<Rightarrow> npfloat" where
  "inverse_npfloat a = divide (Finite 1) a"

fun less_npfloat :: "npfloat \<Rightarrow> npfloat \<Rightarrow> bool" where
  "less_npfloat NaN b = False"
| "less_npfloat a NaN = False"
| "less_npfloat (Finite a) (Finite b) = (a < b)"
| "less_npfloat a NegInf = False"
| "less_npfloat PosInf b = False"
| "less_npfloat a b = True"

definition less_eq_npfloat :: "npfloat \<Rightarrow> npfloat \<Rightarrow> bool" where
  "less_eq_npfloat a b = (a < b \<or> (a = b \<and> a \<noteq> NaN))"

instance ..

end

text \<open>\<open>np.exp\<close> on one value.\<close>

fun np_exp :: "npfloat \<Rightarrow> npfloat" where
  "np_exp (Finite a) = Finite (exp a)"
| "np_exp PosInf = PosInf"
| "np_exp NegInf = Finite 0"
| "np_exp NaN = NaN"

section \<open>The six rate functions of the ion-channel gates\<close>

definition alpha_m :: "npfloat \<Rightarrow> npfloat" where
  "alpha_m V = Finite 0.1 * (V + Finite 40.0) / (Finite 1.0 - np_exp (- (V + Finite 40.0) / Finite 10.0))"

definition beta_m :: "npfloat \<Rightarrow> npfloat" where
  "beta_m V = Finite 4.0 * np_exp (- (V + Finite 65.0) / Finite 18.0)"

definition alpha_h :: "npfloat \<Rightarrow> npfloat" where
  "alpha_h V = Finite 0.07 * np_exp (- (V + Finite 65.0) / Finite 20.0)"

definition beta_h :: "npfloat \<Rightarrow> npfloat" where
  "beta_h V = Finite 1.0 / (Finite 1.0 + np_exp (- (V + Finite 35.0) / Finite 10.0))"

definition alpha_n :: "npfloat \<Rightarrow> npfloat" where
  "alpha_n V = Finite 0.01 * (V + Finite 55.0) / (Finite 1.0 - np_exp (- (V + Finite 55.0) / Finite 10.0))"

definition beta_n :: "npfloat \<Rightarrow> npfloat" where
  "beta_n V = Finite 0.125 * np_exp (- (V + Finite 65) / Finite 80.0)"


section \<open>Arrays and exceptions\<close>

text \<open>
  A one-dimensional \<open>ndarray\<close> is a list.  The arithmetic of the source on arrays is
  written out: a scalar times an array, an array divided by a scalar, and the sum of two
  arrays, which is elementwise (\<open>vadd\<close>) for equal lengths, broadcasts an array of
  length one and raises \<open>ValueError\<close> when the shapes do not fit.
\<close>

datatype error = TypeError | ValueError | ZeroDivisionError | IndexError

type_synonym ndarray = "npfloat list"

definition np_scale :: "npfloat \<Rightarrow> ndarray \<Rightarrow> ndarray" where
  "np_scale c v = map (\<lambda>a. c * a) v"

definition np_div_scalar :: "ndarray \<Rightarrow> npfloat \<Rightarrow> ndarray" where
  "np_div_scalar v c = map (\<lambda>a. a / c) v"

definition vadd :: "ndarray \<Rightarrow> ndarray \<Rightarrow> ndarray" where
  "vadd v w = map2 (+) v w"

definition np_add :: "ndarray \<Rightarrow> ndarray \<Rightarrow> error + ndarray" where
  "np_add v w =
     (if length v = length w then Inr (vadd v w)
      else if length v = 1 then Inr (map (\<lambda>b. hd v + b) w)
      else if length w = 1 then Inr (map (\<lambda>a. a + hd w) v)
      else Inl ValueError)"

section \<open>The class HodgkinHuxleyModel\<close>

record HodgkinHuxleyModel =
  C_m :: npfloat
  g_Na :: npfloat
  g_K :: npfloat
  g_L :: npfloat
  E_Na :: npfloat
  E_K :: npfloat
  E_L :: npfloat
  solver :: string
  dt :: npfloat
  states :: "ndarray option"
  I_m :: "npfloat option"

text \<open>
  The constructor \<open>__init__(self, dt, solver)\<close>.  It checks neither argument.  The
  fields \<open>states\<close> and \<open>I_m\<close> are options because the source stores \<open>None\<close> in them.
\<close>

definition init :: "npfloat \<Rightarrow> string \<Rightarrow> HodgkinHuxleyModel" where
  "init dt' solver' =
     \<lparr>C_m = Finite 1.0, g_Na = Finite 120.0, g_K = Finite 36.0, g_L = Finite 0.3,
      E_Na = Finite 50.0, E_K = Finite (-77.0), E_L = Finite (-54.387),
      solver = solver', dt = dt',
      states = Some [Finite (-65), Finite 0.05, Finite 0.6, Finite 0.32],
      I_m = None\<rparr>"

subsection \<open>Solvers\<close>

text \<open>
  \<open>Solvers\<close> calls the function it is given.  To count and locate these calls the model
  threads a log through the method: \<open>call_func\<close> applies the function and appends its
  argument to the log.  A computation is a function from the log to a result (an
  exception or a value) and the new log; an exception ends it.
\<close>

type_synonym 'a logged = "ndarray list \<Rightarrow> (error + 'a) \<times> ndarray list"

definition return_logged :: "'a \<Rightarrow> 'a logged" where
  "return_logged a = (\<lambda>pts. (Inr a, pts))"

definition lift_logged :: "error + 'a \<Rightarrow> 'a logged" where
  "lift_logged res = (\<lambda>pts. (res, pts))"

definition bind_logged :: "'a logged \<Rightarrow> ('a \<Rightarrow> 'b logged) \<Rightarrow> 'b logged" where
  "bind_logged c f =
     (\<lambda>pts. case c pts of (Inl e, pts') \<Rightarrow> (Inl e, pts') | (Inr a, pts') \<Rightarrow> f a pts')"

definition call_func :: "(ndarray \<Rightarrow> error + ndarray) \<Rightarrow> ndarray \<Rightarrow> ndarray logged" where
  "call_func func x = (\<lambda>pts. (func x, pts @ [x]))"

text \<open>
  The result is \<open>Some\<close> array, or \<open>None\<close> for the last branch of the source
  (\<open>else: return None\<close>); the second component lists the points at which \<open>func\<close> was
  called, in order.
\<close>

definition Solvers ::
  "HodgkinHuxleyModel \<Rightarrow> (ndarray \<Rightarrow> error + ndarray) \<Rightarrow> ndarray \<Rightarrow> npfloat
     \<Rightarrow> (error + ndarray option) \<times> ndarray list" where
  "Solvers self func x dt' =
     (if solver self = ''RK4'' then
        bind_logged (call_func func x) (\<lambda>f1. let k1 = np_scale dt' f1 in
        bind_logged (lift_logged (np_add x (np_scale (Finite 0.5) k1))) (\<lambda>x2.
        bind_logged (call_func func x2) (\<lambda>f2. let k2 = np_scale dt' f2 in
        bind_logged (lift_logged (np_add x (np_scale (Finite 0.5) k2))) (\<lambda>x3.
        bind_logged (call_func func x3) (\<lambda>f3. let k3 = np_scale dt' f3 in
        bind_logged (lift_logged (np_add x k3)) (\<lambda>x4.
        bind_logged (call_func func x4) (\<lambda>f4. let k4 = np_scale dt' f4 in
        bind_logged (lift_logged (np_add k1 (np_scale (Finite 2) k2))) (\<lambda>s1.
        bind_logged (lift_logged (np_add s1 (np_scale (Finite 2) k3))) (\<lambda>s2.
        bind_logged (lift_logged (np_add s2 k4)) (\<lambda>s3.
        bind_logged (lift_logged (np_add x (np_div_scalar s3 (Finite 6)))) (\<lambda>y.
        return_logged (Some y))))))))))))
      else if solver self = ''Euler'' then
        bind_logged (call_func func x) (\<lambda>f1.
        bind_logged (lift_logged (np_add x (np_scale dt' f1))) (\<lambda>y.
        return_logged (Some y)))
      else return_logged None) []"

subsection \<open>The ionic currents and the differential equations\<close>

definition I_Na :: "HodgkinHuxleyModel \<Rightarrow> npfloat \<Rightarrow> npfloat \<Rightarrow> npfloat \<Rightarrow> npfloat" where
  "I_Na self V m h = g_Na self * m ^ 3 * h * (V - E_Na self)"

definition I_K :: "HodgkinHuxleyModel \<Rightarrow> npfloat \<Rightarrow> npfloat \<Rightarrow> npfloat" where
  "I_K self V n = g_K self * n ^ 4 * (V - E_K self)"

definition I_L :: "HodgkinHuxleyModel \<Rightarrow> npfloat \<Rightarrow> npfloat" where
  "I_L self V = g_L self * (V - E_L self)"

text \<open>
  \<open>dALLdt\<close> unpacks its argument into four values (\<open>ValueError\<close> for any other length)
  and subtracts from \<open>self.I_m\<close> (\<open>TypeError\<close> while that is still \<open>None\<close>).
\<close>

fun dALLdt :: "HodgkinHuxleyModel \<Rightarrow> ndarray \<Rightarrow> error + ndarray" where
  "dALLdt self [V, m, h, n] =
     (case I_m self of
        None \<Rightarrow> Inl TypeError
      | Some I \<Rightarrow>
          (let dVdt = (I - I_Na self V m h - I_K self V n - I_L self V) / C_m self;
               dmdt = alpha_m V * (Finite 1.0 - m) - beta_m V * m;
               dhdt = alpha_h V * (Finite 1.0 - h) - beta_h V * h;
               dndt = alpha_n V * (Finite 1.0 - n) - beta_n V * n
           in Inr [dVdt, dmdt, dhdt, dndt]))"
| "dALLdt self sts = Inl ValueError"

text \<open>
  \<open>__call__(self, I)\<close> returns the new state and the updated object.  When the stored
  state is \<open>None\<close> (left there by an earlier call with an unknown solver name), the two
  known solvers call \<open>dALLdt(None)\<close>, whose unpacking raises \<open>TypeError\<close>, and the
  last branch of \<open>Solvers\<close> returns \<open>None\<close> again.
\<close>

definition call ::
  "HodgkinHuxleyModel \<Rightarrow> npfloat \<Rightarrow> error + (ndarray option \<times> HodgkinHuxleyModel)" where
  "call self I =
     (let self1 = self\<lparr>I_m := Some I\<rparr> in
      case states self1 of
        None \<Rightarrow>
          (if solver self1 = ''RK4'' \<or> solver self1 = ''Euler'' then Inl TypeError
           else Inr (None, self1\<lparr>states := None\<rparr>))
      | Some x \<Rightarrow>
          (case fst (Solvers self1 (dALLdt self1) x (dt self1)) of
             Inl e \<Rightarrow> Inl e
           | Inr sts \<Rightarrow> Inr (sts, self1\<lparr>states := sts\<rparr>)))"

section \<open>The simulation cell\<close>

text \<open>
  The cell's constants \<open>dt\<close>, \<open>T\<close>, \<open>td\<close>, \<open>tr\<close>, \<open>spike_times\<close> and the solver name
  are the arguments of the model.  They are Python numbers: dividing by zero raises
  \<open>ZeroDivisionError\<close>, and \<open>round\<close> rounds a half to the even neighbour.
\<close>

definition py_round :: "real \<Rightarrow> int" where
  "py_round x =
     (let f = \<lfloor>x\<rfloor>; d = x - of_int f
      in if d < 1/2 then f else if 1/2 < d then f + 1 else if even f then f else f + 1)"

text \<open>\<open>spike[spike_times] = 1\<close>: a negative index counts from the end.\<close>

fun set_ones :: "real list \<Rightarrow> int list \<Rightarrow> error + real list" where
  "set_ones spike [] = Inr spike"
| "set_ones spike (k # ks) =
     (let n = int (length spike)
      in if - n \<le> k \<and> k < n then set_ones (spike[nat (if k < 0 then k + n else k) := 1]) ks
         else Inl IndexError)"

text \<open>
  \<open>X_arr\<close> has four columns by construction, so a row is a 4-tuple.  \<open>X_arr[i] = X\<close>
  copies an array of length four, broadcasts one of length one and raises \<open>ValueError\<close>
  for any other length.  For \<open>X = None\<close> nothing is raised: NumPy converts \<open>None\<close> to
  NaN when it stores into an array of floats, so the row becomes four NaN.
\<close>

type_synonym row = "npfloat \<times> npfloat \<times> npfloat \<times> npfloat"

fun as_row :: "ndarray \<Rightarrow> error + row" where
  "as_row [a, b, c, d] = Inr (a, b, c, d)"
| "as_row [a] = Inr (a, a, a, a)"
| "as_row v = Inl ValueError"

definition set_row :: "row list \<Rightarrow> nat \<Rightarrow> ndarray option \<Rightarrow> error + row list" where
  "set_row xa i X =
     (if \<not> i < length xa then Inl IndexError
      else case X of
        None \<Rightarrow> Inr (xa[i := (NaN, NaN, NaN, NaN)])
      | Some v \<Rightarrow> (case as_row v of Inl e \<Rightarrow> Inl e | Inr rw \<Rightarrow> Inr (xa[i := rw])))"

record cell =
  r :: real
  hr :: real
  r_list :: "real list"
  X_arr :: "row list"
  HH_neuron :: HodgkinHuxleyModel

text \<open>One pass through the body of the \<open>for\<close> loop, at index \<open>i\<close>.\<close>

definition body :: "real \<Rightarrow> real \<Rightarrow> real \<Rightarrow> real list \<Rightarrow> nat \<Rightarrow> cell \<Rightarrow> error + cell" where
  "body dt' tr td spike i s =
     (if tr = 0 then Inl ZeroDivisionError
      else let r1 = r s * (1 - dt' / tr) + hr s * dt' in
      if td = 0 then Inl ZeroDivisionError
      else if \<not> i < length spike then Inl IndexError
      else let hr1 = hr s * (1 - dt' / td) + spike ! i / (tr * td);
               rl = r_list s @ [r1] in
      case call (HH_neuron s) (Finite (r1 * 50)) of
        Inl e \<Rightarrow> Inl e
      | Inr (X, neuron) \<Rightarrow>
          (case set_row (X_arr s) i X of
             Inl e \<Rightarrow> Inl e
           | Inr xa \<Rightarrow> Inr \<lparr>r = r1, hr = hr1, r_list = rl, X_arr = xa, HH_neuron = neuron\<rparr>))"

fun loop :: "real \<Rightarrow> real \<Rightarrow> real \<Rightarrow> real list \<Rightarrow> nat list \<Rightarrow> cell \<Rightarrow> error + cell" where
  "loop dt' tr td spike [] s = Inr s"
| "loop dt' tr td spike (i # is) s =
     (case body dt' tr td spike i s of
        Inl e \<Rightarrow> Inl e
      | Inr s' \<Rightarrow> loop dt' tr td spike is s')"

text \<open>
  The count printed after the loop:
  \<open>np.sum(np.bitwise_and(X_arr[:-1, 0] < 0, X_arr[1:, 0] > 0))\<close>, on the first column.
\<close>

definition spike_count :: "npfloat list \<Rightarrow> nat" where
  "spike_count V = length (filter (\<lambda>(a, b). a < Finite 0 \<and> Finite 0 < b) (zip (butlast V) (tl V)))"

text \<open>
  The assignments before the loop: \<open>r = 0; hr = 0\<close>, \<open>r_list = []\<close>,
  \<open>X_arr = np.zeros((nt, 4))\<close> and the construction of \<open>HH_neuron\<close>.
\<close>

definition initial_cell :: "nat \<Rightarrow> real \<Rightarrow> string \<Rightarrow> cell" where
  "initial_cell n dt' solver' =
     \<lparr>r = 0, hr = 0, r_list = [],
      X_arr = replicate n (Finite 0, Finite 0, Finite 0, Finite 0),
      HH_neuron = init (Finite dt') solver'\<rparr>"

text \<open>
  The whole cell, from its constants to the recorded trajectory, the list of \<open>r\<close> and
  the spike count.  \<open>round(T/dt)\<close> raises for \<open>dt = 0\<close>, and \<open>np.zeros(nt)\<close> raises
  \<open>ValueError\<close> for a negative \<open>nt\<close>.  (\<open>time\<close> is only plotted and is left out.)
\<close>

definition simulation ::
  "real \<Rightarrow> real \<Rightarrow> real \<Rightarrow> real \<Rightarrow> int list \<Rightarrow> string \<Rightarrow> error + (row list \<times> real list \<times> nat)" where
  "simulation dt' T td tr spike_times solver' =
     (if dt' = 0 then Inl ZeroDivisionError
      else let nt = py_round (T / dt') in
      if nt < 0 then Inl ValueError
      else case set_ones (replicate (nat nt) 0) spike_times of
        Inl e \<Rightarrow> Inl e
      | Inr spike \<Rightarrow>
          (case loop dt' tr td spike [0..<nat nt] (initial_cell (nat nt) dt' solver') of
             Inl e \<Rightarrow> Inl e
           | Inr s \<Rightarrow> Inr (X_arr s, r_list s, spike_count (map fst (X_arr s)))))"

section \<open>The synaptic trace as a recurrence\<close>

text \<open>
  One update of the pair \<open>(r, hr)\<close> with the new \<open>r\<close> computed from the old \<open>hr\<close>,
  the same update in the reversed order (first \<open>hr\<close>, then \<open>r\<close> from the new \<open>hr\<close>), and
  the pair after \<open>i\<close> updates from \<open>(0, 0)\<close>.
\<close>

fun synapse_step :: "real \<Rightarrow> real \<Rightarrow> real \<Rightarrow> real \<Rightarrow> real \<times> real \<Rightarrow> real \<times> real" where
  "synapse_step dt' tr td sp (r0, hr0) =
     (r0 * (1 - dt' / tr) + hr0 * dt', hr0 * (1 - dt' / td) + sp / (tr * td))"

fun synapse_step_reversed :: "real \<Rightarrow> real \<Rightarrow> real \<Rightarrow> real \<Rightarrow> real \<times> real \<Rightarrow> real \<times> real" where
  "synapse_step_reversed dt' tr td sp (r0, hr0) =
     (let hr1 = hr0 * (1 - dt' / td) + sp / (tr * td) in (r0 * (1 - dt' / tr) + hr1 * dt', hr1))"

fun synapse :: "real \<Rightarrow> real \<Rightarrow> real \<Rightarrow> real list \<Rightarrow> nat \<Rightarrow> real \<times> real" where
  "synapse dt' tr td spike 0 = (0, 0)"
| "synapse dt' tr td spike (Suc i) = synapse_step dt' tr td (spike ! i) (synapse dt' tr td spike i)"

section \<open>An invariant of the loop\<close>

definition known_solver :: "HodgkinHuxleyModel \<Rightarrow> bool" where
  "known_solver self = (solver self = ''RK4'' \<or> solver self = ''Euler'')"

definition cell_ok :: "nat \<Rightarrow> cell \<Rightarrow> bool" where
  "cell_ok n s = (length (X_arr s) = n \<and> known_solver (HH_neuron s)
     \<and> (\<exists>x. states (HH_neuron s) = Some x \<and> length x = 4))"

section \<open>The integration schemes as formulas\<close>

text \<open>
  The classical Runge-Kutta scheme for a derivative function \<open>f\<close> that returns arrays of
  the shape of its argument: the four increments \<open>k\<^sub>i = h * f(..)\<close>, the four points at
  which \<open>f\<close> is evaluated, and the combined result.
\<close>

definition rk4_increments :: "(ndarray \<Rightarrow> ndarray) \<Rightarrow> ndarray \<Rightarrow> npfloat \<Rightarrow> ndarray list" where
  "rk4_increments f x h =
     (let k1 = np_scale h (f x);
          k2 = np_scale h (f (vadd x (np_scale (Finite 0.5) k1)));
          k3 = np_scale h (f (vadd x (np_scale (Finite 0.5) k2)));
          k4 = np_scale h (f (vadd x k3))
      in [k1, k2, k3, k4])"

definition rk4_points :: "(ndarray \<Rightarrow> ndarray) \<Rightarrow> ndarray \<Rightarrow> npfloat \<Rightarrow> ndarray list" where
  "rk4_points f x h =
     (case rk4_increments f x h of
        [k1, k2, k3, k4] \<Rightarrow>
          [x, vadd x (np_scale (Finite 0.5) k1), vadd x (np_scale (Finite 0.5) k2), vadd x k3])"

definition rk4_result :: "(ndarray \<Rightarrow> ndarray) \<Rightarrow> ndarray \<Rightarrow> npfloat \<Rightarrow> ndarray" where
  "rk4_result f x h =
     (case rk4_increments f x h of
        [k1, k2, k3, k4] \<Rightarrow>
          vadd x (np_div_scalar
            (vadd (vadd (vadd k1 (np_scale (Finite 2) k2)) (np_scale (Finite 2) k3)) k4) (Finite 6)))"

text \<open>
  The evaluation points as the specification words them: \<open>state + dt/2*k1\<close>,
  \<open>state + dt/2*k2\<close> and \<open>state + dt*k3\<close>, with every \<open>k\<^sub>i\<close> already scaled by \<open>dt\<close>.
\<close>

definition rk4_claimed_points :: "(ndarray \<Rightarrow> ndarray) \<Rightarrow> ndarray \<Rightarrow> npfloat \<Rightarrow> ndarray list" where
  "rk4_claimed_points f x h =
     (let k1 = np_scale h (f x);
          p2 = vadd x (np_scale (h / Finite 2) k1);
          k2 = np_scale h (f p2);
          p3 = vadd x (np_scale (h / Finite 2) k2);
          k3 = np_scale h (f p3);
          p4 = vadd x (np_scale h k3)
      in [x, p2, p3, p4])"

section \<open>Basic facts\<close>

lemma Finite_minus [simp]: "Finite a - Finite b = Finite (a - b)"
  by (simp add: minus_npfloat_def)

lemma Finite_power [simp]: "Finite a ^ n = Finite (a ^ n)"
  by (induction n) (simp_all add: one_npfloat_def)

lemma np_add_same_length: "length v = length w \<Longrightarrow> np_add v w = Inr (vadd v w)"
  by (simp add: np_add_def)

lemma length_np_scale [simp]: "length (np_scale c v) = length v"
  by (simp add: np_scale_def)

lemma length_np_div_scalar [simp]: "length (np_div_scalar v c) = length v"
  by (simp add: np_div_scalar_def)

lemma length_vadd [simp]: "length (vadd v w) = min (length v) (length w)"
  by (simp add: vadd_def)

lemma vadd_nth: "i < length v \<Longrightarrow> i < length w \<Longrightarrow> vadd v w ! i = v ! i + w ! i"
  by (simp add: vadd_def)

lemma bind_call_func:
  "bind_logged (call_func func x) g pts =
     (case func x of Inl e \<Rightarrow> (Inl e, pts @ [x]) | Inr d \<Rightarrow> g d (pts @ [x]))"
  by (simp add: bind_logged_def call_func_def split: sum.splits)

lemma bind_lift:
  "bind_logged (lift_logged res) g pts = (case res of Inl e \<Rightarrow> (Inl e, pts) | Inr d \<Rightarrow> g d pts)"
  by (simp add: bind_logged_def lift_logged_def split: sum.splits)

section \<open>The rate formulas around their singular voltages\<close>

text \<open>
  The formula \<open>c * (V + v0) / (1 - exp(-(V + v0) / 10))\<close> tends to \<open>10 * c\<close> at
  \<open>V = -v0\<close>, and away from that voltage \<open>alpha_m\<close> and \<open>alpha_n\<close> return its value.
\<close>

lemma rate_formula_limit:
  fixes c v0 :: real
  shows "((\<lambda>V. c * (V + v0) / (1 - exp (- (V + v0) / 10))) \<longlongrightarrow> c * 10) (at (- v0))"
proof (rule lhopital)
  show "((\<lambda>V. c * (V + v0)) \<longlongrightarrow> 0) (at (- v0))"
    by (auto intro!: tendsto_eq_intros)
  show "((\<lambda>V. 1 - exp (- (V + v0) / 10)) \<longlongrightarrow> 0) (at (- v0))"
    by (auto intro!: tendsto_eq_intros)
  show "\<forall>\<^sub>F V in at (- v0). 1 - exp (- (V + v0) / 10) \<noteq> 0"
    by (auto simp add: eventually_at_filter)
  show "\<forall>\<^sub>F V in at (- v0). exp (- (V + v0) / 10) / 10 \<noteq> 0"
    by simp
  show "\<forall>\<^sub>F V in at (- v0). ((\<lambda>V. c * (V + v0)) has_real_derivative c) (at V)"
    by (auto intro!: derivative_eq_intros always_eventually)
  show "\<forall>\<^sub>F V in at (- v0). ((\<lambda>V. 1 - exp (- (V + v0) / 10)) has_real_derivative exp (- (V + v0) / 10) / 10) (at V)"
    by (auto intro!: derivative_eq_intros always_eventually)
  show "((\<lambda>V. c / (exp (- (V + v0) / 10) / 10)) \<longlongrightarrow> c * 10) (at (- v0))"
    by (auto intro!: tendsto_eq_intros)
qed

lemma alpha_m_regular:
  assumes "V \<noteq> - 40"
  shows "alpha_m (Finite V) = Finite (0.1 * (V + 40) / (1 - exp (- (V + 40) / 10)))"
  using assms by (simp add: alpha_m_def)

lemma alpha_n_regular:
  assumes "V \<noteq> - 55"
  shows "alpha_n (Finite V) = Finite (0.01 * (V + 55) / (1 - exp (- (V + 55) / 10)))"
  using assms by (simp add: alpha_n_def)

section \<open>What Solvers computes\<close>

lemma Solvers_RK4_run:
  assumes rk: "solver self = ''RK4''"
    and f: "\<And>y. length y = length x \<Longrightarrow> func y = Inr (f y) \<and> length (f y) = length x"
  shows "Solvers self func x h = (Inr (Some (rk4_result f x h)), rk4_points f x h)"
proof -
  define k1 where "k1 = np_scale h (f x)"
  define x2 where "x2 = vadd x (np_scale (Finite 0.5) k1)"
  define k2 where "k2 = np_scale h (f x2)"
  define x3 where "x3 = vadd x (np_scale (Finite 0.5) k2)"
  define k3 where "k3 = np_scale h (f x3)"
  define x4 where "x4 = vadd x k3"
  define k4 where "k4 = np_scale h (f x4)"
  define total where
    "total = vadd (vadd (vadd k1 (np_scale (Finite 2) k2)) (np_scale (Finite 2) k3)) k4"
  have l1: "length k1 = length x" by (simp add: k1_def f)
  have lx2: "length x2 = length x" by (simp add: x2_def l1)
  have l2: "length k2 = length x" by (simp add: k2_def f lx2)
  have lx3: "length x3 = length x" by (simp add: x3_def l2)
  have l3: "length k3 = length x" by (simp add: k3_def f lx3)
  have lx4: "length x4 = length x" by (simp add: x4_def l3)
  have l4: "length k4 = length x" by (simp add: k4_def f lx4)
  have c1: "func x = Inr (f x)" by (simp add: f)
  have c2: "func x2 = Inr (f x2)" by (simp add: f lx2)
  have c3: "func x3 = Inr (f x3)" by (simp add: f lx3)
  have c4: "func x4 = Inr (f x4)" by (simp add: f lx4)
  have a2: "np_add x (np_scale (Finite 0.5) k1) = Inr x2"
    by (simp add: np_add_same_length l1 x2_def)
  have a3: "np_add x (np_scale (Finite 0.5) k2) = Inr x3"
    by (simp add: np_add_same_length l2 x3_def)
  have a4: "np_add x k3 = Inr x4"
    by (simp add: np_add_same_length l3 x4_def)
  have s1: "np_add k1 (np_scale (Finite 2) k2) = Inr (vadd k1 (np_scale (Finite 2) k2))"
    by (simp add: np_add_same_length l1 l2)
  have s2: "np_add (vadd k1 (np_scale (Finite 2) k2)) (np_scale (Finite 2) k3)
      = Inr (vadd (vadd k1 (np_scale (Finite 2) k2)) (np_scale (Finite 2) k3))"
    by (simp add: np_add_same_length l1 l2 l3)
  have s3: "np_add (vadd (vadd k1 (np_scale (Finite 2) k2)) (np_scale (Finite 2) k3)) k4
      = Inr total"
    by (simp add: np_add_same_length l1 l2 l3 l4 total_def)
  have s4: "np_add x (np_div_scalar total (Finite 6)) = Inr (vadd x (np_div_scalar total (Finite 6)))"
    by (simp add: np_add_same_length l1 l2 l3 l4 total_def)
  have inc: "rk4_increments f x h = [k1, k2, k3, k4]"
    by (simp add: rk4_increments_def Let_def k1_def x2_def k2_def x3_def k3_def x4_def k4_def)
  have "Solvers self func x h =
      (Inr (Some (vadd x (np_div_scalar total (Finite 6)))), [x, x2, x3, x4])"
    unfolding Solvers_def
    by (simp only: rk simp_thms if_True bind_call_func bind_lift return_logged_def c1 c2 c3 c4 a2 a3 a4
        s1 s2 s3 s4 sum.case Let_def append_Nil append_Cons
        k1_def [symmetric] k2_def [symmetric] k3_def [symmetric] k4_def [symmetric])
  then show ?thesis
    by (simp add: rk4_result_def rk4_points_def inc x2_def x3_def x4_def total_def)
qed

lemma Solvers_Euler_run:
  assumes "solver self = ''Euler''"
  shows "Solvers self func x h =
       (case func x of Inl e \<Rightarrow> Inl e | Inr d \<Rightarrow> map_sum id Some (np_add x (np_scale h d)), [x])"
  using assms
  by (simp add: Solvers_def bind_call_func bind_lift return_logged_def split: sum.splits)

lemma Solvers_unknown:
  assumes "solver self \<noteq> ''RK4''" and "solver self \<noteq> ''Euler''"
  shows "Solvers self func x h = (Inr None, [])"
  using assms by (simp add: Solvers_def return_logged_def)

section \<open>What a step of the model returns\<close>

lemma dALLdt_length4:
  assumes "I_m self = Some I" and "length y = 4"
  shows "\<exists>d. dALLdt self y = Inr d \<and> length d = 4"
proof -
  from assms(2) obtain V m h n where "y = [V, m, h, n]"
    by (auto simp add: length_Suc_conv numeral_eq_Suc)
  with assms(1) show ?thesis by (simp add: Let_def)
qed

text \<open>
  Two values of \<open>dALLdt\<close>: the voltage derivative at the initial state without drive, and
  the derivative of the gate \<open>m\<close> at the singular voltage of \<open>alpha_m\<close>.
\<close>

lemma initial_dVdt:
  "\<exists>dm dh dn. dALLdt ((init d s)\<lparr>I_m := Some (Finite 0)\<rparr>)
       [Finite (-65), Finite 0.05, Finite 0.6, Finite 0.32]
     = Inr [Finite (-0.31094832), dm, dh, dn]"
  by (simp add: init_def I_Na_def I_K_def I_L_def power3_eq_cube power4_eq_xxxx)

lemma dmdt_at_singular_voltage:
  "\<exists>dV dh dn. dALLdt (self\<lparr>I_m := Some I\<rparr>) [Finite (-40), m, h, n] = Inr [dV, NaN, dh, dn]"
  by (simp add: alpha_m_def minus_npfloat_def)

lemma call_unknown_solver:
  assumes "solver self \<noteq> ''RK4''" and "solver self \<noteq> ''Euler''"
  shows "call self I = Inr (None, self\<lparr>I_m := Some I, states := None\<rparr>)"
  using assms
  by (simp add: call_def Solvers_unknown Let_def split: option.splits)

lemma call_known_solver:
  assumes slv: "solver self = ''RK4'' \<or> solver self = ''Euler''"
    and st: "states self = Some x" and len: "length x = 4"
  shows "\<exists>y. length y = 4 \<and> call self I = Inr (Some y, self\<lparr>I_m := Some I, states := Some y\<rparr>)"
proof -
  define self1 where "self1 = self\<lparr>I_m := Some I\<rparr>"
  define f where "f = (\<lambda>y. projr (dALLdt self1 y))"
  have f: "dALLdt self1 y = Inr (f y) \<and> length (f y) = length x" if "length y = length x" for y
    using dALLdt_length4 [of self1 I y] that len by (auto simp add: self1_def f_def)
  have s1: "solver self1 = solver self" "states self1 = Some x" "dt self1 = dt self"
    by (simp_all add: self1_def st)
  from slv show ?thesis
  proof
    assume rk: "solver self = ''RK4''"
    have "Solvers self1 (dALLdt self1) x (dt self1)
        = (Inr (Some (rk4_result f x (dt self1))), rk4_points f x (dt self1))"
      by (rule Solvers_RK4_run) (simp_all add: s1 rk f)
    moreover have "length (rk4_result f x (dt self1)) = 4"
      using f by (simp add: rk4_result_def rk4_increments_def Let_def len)
    ultimately show ?thesis
      by (simp add: call_def Let_def s1 flip: self1_def)
  next
    assume eu: "solver self = ''Euler''"
    have "fst (Solvers self1 (dALLdt self1) x (dt self1))
        = Inr (Some (vadd x (np_scale (dt self1) (f x))))"
      using Solvers_Euler_run [of self1 "dALLdt self1" x "dt self1"] f [of x]
      by (simp add: s1 eu np_add_same_length)
    moreover have "length (vadd x (np_scale (dt self1) (f x))) = 4"
      using f [of x] by (simp add: len)
    ultimately show ?thesis
      by (simp add: call_def Let_def s1 flip: self1_def)
  qed
qed

section \<open>What the loop computes\<close>

lemma call_sets_I_m:
  assumes "call self I = Inr (X, self')"
  shows "I_m self' = Some I \<and> states self' = X \<and> solver self' = solver self \<and> dt self' = dt self"
  using assms
  by (auto simp add: call_def Let_def split: option.splits if_splits sum.splits)

lemma body_Inr:
  assumes "body dt' tr td spike i s = Inr s'"
  shows "tr \<noteq> 0 \<and> td \<noteq> 0 \<and> i < length spike
    \<and> r s' = r s * (1 - dt' / tr) + hr s * dt'
    \<and> hr s' = hr s * (1 - dt' / td) + spike ! i / (tr * td)
    \<and> r_list s' = r_list s @ [r s']
    \<and> (\<exists>X. call (HH_neuron s) (Finite (r s' * 50)) = Inr (X, HH_neuron s')
          \<and> set_row (X_arr s) i X = Inr (X_arr s'))"
  using assms
  by (auto simp add: body_def Let_def split: if_splits sum.splits prod.splits)

lemma as_row_length4: "length v = 4 \<Longrightarrow> as_row v = Inr (v ! 0, v ! 1, v ! 2, v ! 3)"
  by (auto simp add: length_Suc_conv numeral_eq_Suc)

lemma body_succeeds:
  assumes "tr \<noteq> 0" and "td \<noteq> 0" and "i < length spike" and "i < length (X_arr s)"
    and "known_solver (HH_neuron s)" and "states (HH_neuron s) = Some x" and "length x = 4"
  shows "\<exists>y. length y = 4 \<and> body dt' tr td spike i s =
    Inr \<lparr>r = r s * (1 - dt' / tr) + hr s * dt',
         hr = hr s * (1 - dt' / td) + spike ! i / (tr * td),
         r_list = r_list s @ [r s * (1 - dt' / tr) + hr s * dt'],
         X_arr = (X_arr s)[i := (y ! 0, y ! 1, y ! 2, y ! 3)],
         HH_neuron = (HH_neuron s)\<lparr>I_m := Some (Finite ((r s * (1 - dt' / tr) + hr s * dt') * 50)),
            states := Some y\<rparr>\<rparr>"
proof -
  let ?I = "Finite ((r s * (1 - dt' / tr) + hr s * dt') * 50)"
  from call_known_solver [of "HH_neuron s" x ?I] assms
  obtain y where y: "length y = 4"
    "call (HH_neuron s) ?I = Inr (Some y, (HH_neuron s)\<lparr>I_m := Some ?I, states := Some y\<rparr>)"
    by (auto simp add: known_solver_def)
  have "set_row (X_arr s) i (Some y) = Inr ((X_arr s)[i := (y ! 0, y ! 1, y ! 2, y ! 3)])"
    using assms(4) y(1) by (simp add: set_row_def as_row_length4)
  with y assms(1,2,3) show ?thesis
    by (intro exI [of _ y]) (simp add: body_def Let_def)
qed

lemma loop_append:
  "loop dt' tr td spike (xs @ ys) s =
     (case loop dt' tr td spike xs s of Inl e \<Rightarrow> Inl e | Inr s' \<Rightarrow> loop dt' tr td spike ys s')"
  by (induction xs arbitrary: s) (auto split: sum.splits)

lemma loop_synapse:
  assumes "loop dt' tr td spike [0..<k] s0 = Inr s"
    and "r s0 = 0" and "hr s0 = 0"
  shows "(r s, hr s) = synapse dt' tr td spike k
    \<and> r_list s = r_list s0 @ map (\<lambda>i. fst (synapse dt' tr td spike (Suc i))) [0..<k]"
  using assms(1)
proof (induction k arbitrary: s)
  case 0
  then show ?case using assms(2,3) by simp
next
  case (Suc k)
  from Suc.prems obtain s1 where s1: "loop dt' tr td spike [0..<k] s0 = Inr s1"
    and b: "body dt' tr td spike k s1 = Inr s"
    by (auto simp add: loop_append split: sum.splits)
  from Suc.IH [OF s1] have eq: "r s1 = fst (synapse dt' tr td spike k)"
      "hr s1 = snd (synapse dt' tr td spike k)"
    and rl: "r_list s1 = r_list s0 @ map (\<lambda>i. fst (synapse dt' tr td spike (Suc i))) [0..<k]"
    by (simp_all add: prod_eq_iff)
  then have pr: "synapse dt' tr td spike k = (r s1, hr s1)"
    by (simp add: prod_eq_iff)
  from body_Inr [OF b] have "r s = r s1 * (1 - dt' / tr) + hr s1 * dt'"
    and "hr s = hr s1 * (1 - dt' / td) + spike ! k / (tr * td)"
    and "r_list s = r_list s1 @ [r s]"
    by simp_all
  with rl pr show ?case
    by simp
qed

lemma body_keeps_ok:
  assumes "tr \<noteq> 0" and "td \<noteq> 0" and "i < length spike" and "i < n" and "cell_ok n s"
  shows "\<exists>s'. body dt' tr td spike i s = Inr s' \<and> cell_ok n s' \<and> length (r_list s') = Suc (length (r_list s))"
proof -
  from assms(5) obtain x where x: "states (HH_neuron s) = Some x" "length x = 4"
    and k: "known_solver (HH_neuron s)" and l: "length (X_arr s) = n"
    by (auto simp add: cell_ok_def)
  from body_succeeds [OF assms(1,2,3) _ k x, of dt'] assms(4) l
  obtain y where "length y = 4" and "body dt' tr td spike i s =
    Inr \<lparr>r = r s * (1 - dt' / tr) + hr s * dt',
         hr = hr s * (1 - dt' / td) + spike ! i / (tr * td),
         r_list = r_list s @ [r s * (1 - dt' / tr) + hr s * dt'],
         X_arr = (X_arr s)[i := (y ! 0, y ! 1, y ! 2, y ! 3)],
         HH_neuron = (HH_neuron s)\<lparr>I_m := Some (Finite ((r s * (1 - dt' / tr) + hr s * dt') * 50)),
            states := Some y\<rparr>\<rparr>"
    by auto
  with k l show ?thesis
    by (simp add: cell_ok_def known_solver_def)
qed

lemma loop_succeeds:
  assumes "tr \<noteq> 0" and "td \<noteq> 0" and "\<forall>i \<in> set is. i < length spike \<and> i < n" and "cell_ok n s"
  shows "\<exists>s'. loop dt' tr td spike is s = Inr s' \<and> cell_ok n s'
    \<and> length (r_list s') = length (r_list s) + length is"
  using assms(3,4)
proof (induction "is" arbitrary: s)
  case Nil
  then show ?case by simp
next
  case (Cons i "is")
  from body_keeps_ok [OF assms(1,2), of i spike n s dt'] Cons.prems
  obtain s1 where s1: "body dt' tr td spike i s = Inr s1" "cell_ok n s1"
    "length (r_list s1) = Suc (length (r_list s))"
    by auto
  from Cons.IH [OF _ s1(2)] Cons.prems(1) s1(1,3) show ?case
    by auto
qed


lemma set_ones_length: "set_ones spike ks = Inr spike' \<Longrightarrow> length spike' = length spike"
  by (induction ks arbitrary: spike) (auto simp add: Let_def split: if_splits)

lemma set_ones_in_range:
  assumes "\<forall>k \<in> set ks. - int (length spike) \<le> k \<and> k < int (length spike)"
  shows "\<exists>spike'. set_ones spike ks = Inr spike'"
  using assms by (induction ks arbitrary: spike) (auto simp add: Let_def)

lemma set_ones_out_of_range:
  assumes "\<exists>k \<in> set ks. \<not> (- int (length spike) \<le> k \<and> k < int (length spike))"
  shows "set_ones spike ks = Inl IndexError"
  using assms by (induction ks arbitrary: spike) (auto simp add: Let_def)

lemma simulation_Inr:
  assumes "simulation dt' T td tr spike_times solver' = Inr (X, rl, c)"
  shows "dt' \<noteq> 0 \<and> 0 \<le> py_round (T / dt')
    \<and> (\<exists>spike s. set_ones (replicate (nat (py_round (T / dt'))) 0) spike_times = Inr spike
          \<and> loop dt' tr td spike [0..<nat (py_round (T / dt'))]
               (initial_cell (nat (py_round (T / dt'))) dt' solver') = Inr s
          \<and> X = X_arr s \<and> rl = r_list s \<and> c = spike_count (map fst (X_arr s)))"
  using assms
  by (auto simp add: simulation_def initial_cell_def Let_def split: if_splits sum.splits)

lemma simulation_succeeds:
  assumes dt: "dt' \<noteq> 0" and nt: "0 \<le> py_round (T / dt')"
    and st: "\<forall>k \<in> set spike_times. - py_round (T / dt') \<le> k \<and> k < py_round (T / dt')"
    and tr: "tr \<noteq> 0" and td: "td \<noteq> 0"
    and slv: "solver' = ''RK4'' \<or> solver' = ''Euler''"
  shows "\<exists>X rl c. simulation dt' T td tr spike_times solver' = Inr (X, rl, c)
    \<and> length X = nat (py_round (T / dt')) \<and> length rl = nat (py_round (T / dt'))"
proof -
  define n where "n = nat (py_round (T / dt'))"
  from st nt obtain spike where sp: "set_ones (replicate n 0) spike_times = Inr spike"
    using set_ones_in_range [of spike_times "replicate n 0"] by (auto simp add: n_def)
  then have len: "length spike = n"
    by (auto dest: set_ones_length)
  have ok: "cell_ok n (initial_cell n dt' solver')"
    using slv by (simp add: cell_ok_def initial_cell_def init_def known_solver_def)
  from loop_succeeds [OF tr td _ ok, of "[0..<n]" spike dt'] len
  obtain s where s: "loop dt' tr td spike [0..<n] (initial_cell n dt' solver') = Inr s"
    "cell_ok n s" "length (r_list s) = n"
    by (auto simp add: initial_cell_def)
  from dt nt sp s show ?thesis
    by (simp add: simulation_def Let_def cell_ok_def flip: n_def initial_cell_def)
qed

lemma py_round_of_int [simp]: "py_round (of_int k) = k"
  by (simp add: py_round_def)

lemma py_round_numeral [simp]: "py_round (numeral k) = numeral k"
  using py_round_of_int [of "numeral k"] by simp

lemma py_round_0 [simp]: "py_round 0 = 0"
  using py_round_of_int [of 0] by simp

lemma py_round_neg_numeral [simp]: "py_round (- numeral k) = - numeral k"
  using py_round_of_int [of "- numeral k"] by simp


lemma spike_count_card:
  "spike_count V = card {i. i + 1 < length V \<and> V ! i < Finite 0 \<and> Finite 0 < V ! (i + 1)}"
proof -
  let ?z = "zip (butlast V) (tl V)"
  have len: "length ?z = length V - 1" by simp
  have nth: "?z ! i = (V ! i, V ! (i + 1))" if "i < length V - 1" for i
    using that by (simp add: nth_butlast nth_tl)
  have "spike_count V = card {i. i < length ?z \<and> (case ?z ! i of (a, b) \<Rightarrow> a < Finite 0 \<and> Finite 0 < b)}"
    unfolding spike_count_def by (rule length_filter_conv_card)
  also have "{i. i < length ?z \<and> (case ?z ! i of (a, b) \<Rightarrow> a < Finite 0 \<and> Finite 0 < b)}
      = {i. i + 1 < length V \<and> V ! i < Finite 0 \<and> Finite 0 < V ! (i + 1)}"
    using nth by (auto simp add: len less_diff_conv)
  finally show ?thesis .
qed

lemma loop_ignores_stale_drive:
  assumes "HH_neuron s2 = (HH_neuron s1)\<lparr>I_m := a\<rparr>"
    and "r s2 = r s1" and "hr s2 = hr s1" and "r_list s2 = r_list s1" and "X_arr s2 = X_arr s1"
  shows "map_sum id (\<lambda>s. (X_arr s, r_list s, spike_count (map fst (X_arr s))))
           (loop dt' tr td spike is s1)
       = map_sum id (\<lambda>s. (X_arr s, r_list s, spike_count (map fst (X_arr s))))
           (loop dt' tr td spike is s2)"
proof (cases "is")
  case Nil
  with assms show ?thesis by simp
next
  case (Cons i js)
  have "call (HH_neuron s2) I = call (HH_neuron s1) I" for I
    by (simp add: call_def assms(1) Let_def)
  then have "body dt' tr td spike i s2 = body dt' tr td spike i s1"
    by (simp add: body_def assms Let_def split: sum.splits prod.splits)
  with Cons show ?thesis by simp
qed


text \<open>
  A run with an unknown solver name: every step returns \<open>None\<close>, the cell stores a row of
  NaN for it, and the run ends with a trajectory of NaN and no spike.
\<close>

lemma body_unknown_solver:
  assumes "tr \<noteq> 0" and "td \<noteq> 0" and "i < length spike" and "i < length (X_arr s)"
    and "\<not> known_solver (HH_neuron s)"
  shows "body dt' tr td spike i s =
    Inr \<lparr>r = r s * (1 - dt' / tr) + hr s * dt',
         hr = hr s * (1 - dt' / td) + spike ! i / (tr * td),
         r_list = r_list s @ [r s * (1 - dt' / tr) + hr s * dt'],
         X_arr = (X_arr s)[i := (NaN, NaN, NaN, NaN)],
         HH_neuron = (HH_neuron s)\<lparr>I_m := Some (Finite ((r s * (1 - dt' / tr) + hr s * dt') * 50)),
            states := None\<rparr>\<rparr>"
  using assms
  by (simp add: body_def Let_def call_unknown_solver known_solver_def set_row_def)

lemma loop_unknown_solver:
  assumes tr: "tr \<noteq> 0" and td: "td \<noteq> 0" and k: "k \<le> length spike" "k \<le> length (X_arr s)"
    and slv: "\<not> known_solver (HH_neuron s)"
  shows "\<exists>s'. loop dt' tr td spike [0..<k] s = Inr s'
    \<and> take k (X_arr s') = replicate k (NaN, NaN, NaN, NaN)
    \<and> length (X_arr s') = length (X_arr s)
    \<and> length (r_list s') = length (r_list s) + k
    \<and> \<not> known_solver (HH_neuron s')"
  using k
proof (induction k)
  case 0
  with slv show ?case by simp
next
  case (Suc k)
  then obtain s1 where s1: "loop dt' tr td spike [0..<k] s = Inr s1"
    and tk: "take k (X_arr s1) = replicate k (NaN, NaN, NaN, NaN)"
    and len: "length (X_arr s1) = length (X_arr s)"
    and rl: "length (r_list s1) = length (r_list s) + k"
    and un: "\<not> known_solver (HH_neuron s1)"
    by auto
  from Suc.prems len have lt: "k < length spike" "k < length (X_arr s1)"
    by simp_all
  note b = body_unknown_solver [OF tr td lt un, of dt']
  have "take (Suc k) ((X_arr s1)[k := (NaN, NaN, NaN, NaN)]) = replicate (Suc k) (NaN, NaN, NaN, NaN)"
    using lt(2) tk by (simp add: take_Suc_conv_app_nth replicate_append_same)
  with s1 b len rl un show ?case
    by (simp add: loop_append known_solver_def)
qed

lemma spike_count_all_NaN: "spike_count (replicate n NaN) = 0"
  by (auto simp add: spike_count_def filter_empty_conv dest!: set_zip_leftD in_set_butlastD)

lemma simulation_unknown_solver:
  assumes dt: "dt' \<noteq> 0" and nt: "0 \<le> py_round (T / dt')"
    and st: "\<forall>k \<in> set spike_times. - py_round (T / dt') \<le> k \<and> k < py_round (T / dt')"
    and tr: "tr \<noteq> 0" and td: "td \<noteq> 0"
    and slv: "solver' \<noteq> ''RK4''" "solver' \<noteq> ''Euler''"
  shows "\<exists>rl. simulation dt' T td tr spike_times solver'
      = Inr (replicate (nat (py_round (T / dt'))) (NaN, NaN, NaN, NaN), rl, 0)
    \<and> length rl = nat (py_round (T / dt'))"
proof -
  define n where "n = nat (py_round (T / dt'))"
  from st nt obtain spike where sp: "set_ones (replicate n 0) spike_times = Inr spike"
    using set_ones_in_range [of spike_times "replicate n 0"] by (auto simp add: n_def)
  then have len: "length spike = n"
    by (auto dest: set_ones_length)
  have "\<not> known_solver (HH_neuron (initial_cell n dt' solver'))"
    using slv by (simp add: initial_cell_def init_def known_solver_def)
  from loop_unknown_solver [OF tr td _ _ this, of n spike dt'] len
  obtain s where s: "loop dt' tr td spike [0..<n] (initial_cell n dt' solver') = Inr s"
    and tk: "take n (X_arr s) = replicate n (NaN, NaN, NaN, NaN)"
    and ln: "length (X_arr s) = n" and rl: "length (r_list s) = n"
    by (auto simp add: initial_cell_def)
  from tk ln have "X_arr s = replicate n (NaN, NaN, NaN, NaN)"
    by simp
  with dt nt sp s rl show ?thesis
    by (simp add: simulation_def Let_def spike_count_all_NaN flip: n_def)
qed

lemma simulation_spike_time_out_of_range:
  assumes "dt' \<noteq> 0" and "0 \<le> py_round (T / dt')"
    and "\<exists>k \<in> set spike_times. \<not> (- py_round (T / dt') \<le> k \<and> k < py_round (T / dt'))"
  shows "simulation dt' T td tr spike_times solver' = Inl IndexError"
proof -
  have "set_ones (replicate (nat (py_round (T / dt'))) 0) spike_times = Inl IndexError"
    using assms(2,3) by (intro set_ones_out_of_range) simp
  with assms(1,2) show ?thesis
    by (simp add: simulation_def Let_def)
qed

text \<open>The run of the notebook as it stands completes, with one row for each of its 40000 steps.\<close>

lemma reference_run_completes:
  "\<exists>X rl c. simulation (1 / 100) 400 20 2 [10000] ''Euler'' = Inr (X, rl, c)
     \<and> length X = 40000 \<and> length rl = 40000"
  using simulation_succeeds [of "1 / 100" 400 "[10000]" 2 20 "''Euler''"]
  by simp

section \<open>The claims\<close>

subsection \<open>The rate functions at their singular voltages\<close>

text \<open>
  Claim C1.  The claim says that \<open>alpha_m\<close> at \<open>V = -40\<close> and \<open>alpha_n\<close> at \<open>V = -55\<close>
  return the finite limit of their formula.  The source has no special case: at these
  voltages both numerator and denominator are zero, and the quotient \<open>0.0 / 0.0\<close> is NaN,
  while the limits of the two formulas there are \<open>1\<close> and \<open>0.1\<close>.
\<close>

theorem alpha_singular_is_NaN:
  "alpha_m (Finite (-40)) = NaN \<and> alpha_n (Finite (-55)) = NaN
   \<and> ((\<lambda>V::real. 0.1 * (V + 40) / (1 - exp (- (V + 40) / 10))) \<longlongrightarrow> 1) (at (- 40))
   \<and> ((\<lambda>V::real. 0.01 * (V + 55) / (1 - exp (- (V + 55) / 10))) \<longlongrightarrow> 0.1) (at (- 55))"
proof (intro conjI)
  show "alpha_m (Finite (-40)) = NaN"
    by (simp add: alpha_m_def)
  show "alpha_n (Finite (-55)) = NaN"
    by (simp add: alpha_n_def)
  show "((\<lambda>V::real. 0.1 * (V + 40) / (1 - exp (- (V + 40) / 10))) \<longlongrightarrow> 1) (at (- 40))"
    using rate_formula_limit [of "0.1" 40] by simp
  show "((\<lambda>V::real. 0.01 * (V + 55) / (1 - exp (- (V + 55) / 10))) \<longlongrightarrow> 0.1) (at (- 55))"
    using rate_formula_limit [of "0.01" 55] by simp
qed

subsection \<open>An unknown solver name\<close>

text \<open>
  Claim C2, as the source has it.  The constructor stores any solver name unchecked.
  With a name other than \<open>RK4\<close> and \<open>Euler\<close> every step returns \<open>None\<close> without
  raising and stores \<open>None\<close> as the state; with one of the two names a step from a state of
  four values returns a state of four values, never \<open>None\<close>.  In the simulation cell
  nothing is raised either: each \<open>None\<close> is stored as a row of NaN, and the run ends with
  a trajectory of NaN and the spike count \<open>0\<close>.
\<close>

theorem call_by_solver_name:
  "solver (init d solver') = solver'
   \<and> (solver self \<noteq> ''RK4'' \<and> solver self \<noteq> ''Euler'' \<longrightarrow>
        call self I = Inr (None, self\<lparr>I_m := Some I, states := None\<rparr>))
   \<and> ((solver self = ''RK4'' \<or> solver self = ''Euler'') \<and> states self = Some x \<and> length x = 4 \<longrightarrow>
        (\<exists>y. length y = 4 \<and> call self I = Inr (Some y, self\<lparr>I_m := Some I, states := Some y\<rparr>)))
   \<and> (solver' \<noteq> ''RK4'' \<and> solver' \<noteq> ''Euler'' \<and> dt' \<noteq> 0 \<and> 0 \<le> py_round (T / dt')
        \<and> (\<forall>k \<in> set spike_times. - py_round (T / dt') \<le> k \<and> k < py_round (T / dt'))
        \<and> tr \<noteq> 0 \<and> td \<noteq> 0 \<longrightarrow>
        (\<exists>rl. simulation dt' T td tr spike_times solver'
             = Inr (replicate (nat (py_round (T / dt'))) (NaN, NaN, NaN, NaN), rl, 0)
           \<and> length rl = nat (py_round (T / dt'))))"
  using call_unknown_solver [of self I] call_known_solver [of self x I]
    simulation_unknown_solver [of dt' T spike_times tr td solver']
  by (simp add: init_def)

theorem call_by_solver_name_witness:
  "call (init (Finite 0.01) ''Heun'') (Finite 0)
     = Inr (None, (init (Finite 0.01) ''Heun'')\<lparr>I_m := Some (Finite 0), states := None\<rparr>)
   \<and> (\<exists>y. length y = 4 \<and> call (init (Finite 0.01) ''Euler'') (Finite 0)
         = Inr (Some y, (init (Finite 0.01) ''Euler'')\<lparr>I_m := Some (Finite 0), states := Some y\<rparr>))
   \<and> (\<exists>rl. simulation 1 2 20 2 [0] ''Heun''
         = Inr ([(NaN, NaN, NaN, NaN), (NaN, NaN, NaN, NaN)], rl, 0) \<and> length rl = 2)"
  using call_by_solver_name [where self = "init (Finite 0.01) ''Heun''" and I = "Finite 0"
      and solver' = "''Heun''" and dt' = 1 and T = 2 and td = 20 and tr = 2 and spike_times = "[0]"]
    call_by_solver_name [where self = "init (Finite 0.01) ''Euler''" and I = "Finite 0"
      and x = "[Finite (-65), Finite 0.05, Finite 0.6, Finite 0.32]"]
  by (simp add: init_def numeral_2_eq_2)

text \<open>
  The claim as stated fails: a model configured with the name \<open>Heun\<close> is constructed, and
  its step returns \<open>None\<close> without any error.
\<close>

theorem unknown_solver_step_is_None:
  "call (init (Finite 0.01) ''Heun'') (Finite 0)
     = Inr (None, (init (Finite 0.01) ''Heun'')\<lparr>I_m := Some (Finite 0), states := None\<rparr>)"
  by (simp add: call_def init_def Solvers_def return_logged_def)

subsection \<open>The differential equations\<close>

text \<open>
  Claim C3.  For every state of four values \<open>(V, m, h, n)\<close>, every parameter set and the
  drive \<open>I\<close> supplied last, \<open>dALLdt\<close> returns the four derivatives in the order of the
  state: \<open>dV/dt = (I - I_Na - I_K - I_L) / C_m\<close> with
  \<open>I_Na = g_Na * m^3 * h * (V - E_Na)\<close>, \<open>I_K = g_K * n^4 * (V - E_K)\<close>,
  \<open>I_L = g_L * (V - E_L)\<close>, and \<open>dx/dt = alpha_x(V) * (1 - x) - beta_x(V) * x\<close> for each
  gate.
\<close>

theorem dALLdt_equations:
  "dALLdt (self\<lparr>I_m := Some I\<rparr>) [V, m, h, n] =
     Inr [(I - g_Na self * m ^ 3 * h * (V - E_Na self)
             - g_K self * n ^ 4 * (V - E_K self)
             - g_L self * (V - E_L self)) / C_m self,
          alpha_m V * (Finite 1 - m) - beta_m V * m,
          alpha_h V * (Finite 1 - h) - beta_h V * h,
          alpha_n V * (Finite 1 - n) - beta_n V * n]"
  by (simp add: I_Na_def I_K_def I_L_def)

subsection \<open>Runge-Kutta\<close>

text \<open>
  Claim C4, as the source has it.  With the solver \<open>RK4\<close>, and a derivative function
  that returns an array of the shape of the state, one step calls the function exactly
  four times, at \<open>x\<close>, \<open>x + 0.5*k1\<close>, \<open>x + 0.5*k2\<close> and \<open>x + k3\<close>, and returns
  \<open>x + (k1 + 2*k2 + 2*k3 + k4) / 6\<close>, where each \<open>k\<^sub>i\<close> is \<open>dt\<close> times the value of the
  function at the \<open>i\<close>-th point.
\<close>

theorem Solvers_RK4:
  assumes "solver self = ''RK4''"
    and "\<And>y. length y = length x \<Longrightarrow> func y = Inr (f y) \<and> length (f y) = length x"
  shows "Solvers self func x h = (Inr (Some (rk4_result f x h)), rk4_points f x h)"
  using assms by (rule Solvers_RK4_run)

theorem Solvers_RK4_witness:
  "Solvers (init (Finite 2) ''RK4'') Inr [Finite 1] (Finite 2)
     = (Inr (Some [Finite 7]), [[Finite 1], [Finite 2], [Finite 3], [Finite 7]])"
  using Solvers_RK4 [of "init (Finite 2) ''RK4''" "[Finite 1]" Inr id "Finite 2"]
  by (simp add: init_def rk4_result_def rk4_points_def rk4_increments_def vadd_def np_scale_def
      np_div_scalar_def)

text \<open>
  The claim as stated scales the increments a second time when it forms the evaluation
  points.  For the derivative function \<open>f(x) = x\<close>, the state \<open>[1]\<close> and \<open>dt = 2\<close> the
  source evaluates at \<open>1, 2, 3, 7\<close>; the points of the claim are \<open>1, 3, 7, 29\<close>.
\<close>

theorem Solvers_RK4_not_claimed_points:
  "snd (Solvers (init (Finite 2) ''RK4'') Inr [Finite 1] (Finite 2))
     \<noteq> rk4_claimed_points id [Finite 1] (Finite 2)"
  by (simp add: Solvers_def init_def bind_call_func bind_lift return_logged_def np_add_def
      np_scale_def np_div_scalar_def rk4_claimed_points_def vadd_def Let_def)

subsection \<open>Forward Euler\<close>

text \<open>
  Claim C5.  With the solver \<open>Euler\<close>, for every derivative function, state and step
  size, one step calls the derivative function exactly once, at the state, and returns
  \<open>state + dt * derivative(state)\<close>: the sum of NumPy in general (an exception of the
  function or of the sum is passed on), which for a derivative of the shape of the state
  is the elementwise sum.
\<close>

theorem Solvers_Euler:
  assumes "solver self = ''Euler''"
  shows "Solvers self func x h =
       (case func x of Inl e \<Rightarrow> Inl e | Inr d \<Rightarrow> map_sum id Some (np_add x (np_scale h d)), [x])
     \<and> (\<forall>d. func x = Inr d \<and> length d = length x \<longrightarrow>
          Solvers self func x h = (Inr (Some (vadd x (np_scale h d))), [x])
          \<and> (\<forall>i < length x. vadd x (np_scale h d) ! i = x ! i + h * d ! i))"
  using assms
  by (simp add: Solvers_Euler_run np_add_same_length vadd_nth np_scale_def)

theorem Solvers_Euler_witness:
  "Solvers (init (Finite 2) ''Euler'') Inr [Finite 1] (Finite 2) = (Inr (Some [Finite 3]), [[Finite 1]])"
  using Solvers_Euler [of "init (Finite 2) ''Euler''" Inr "[Finite 1]" "Finite 2"]
  by (simp add: init_def np_add_def vadd_def np_scale_def)

subsection \<open>The synaptic trace\<close>

text \<open>
  Claim C6.  In every pass of the loop that completes, the new \<open>r\<close> is computed from the
  old \<open>hr\<close> (\<open>r * (1 - dt/tr) + hr * dt\<close>), then \<open>hr\<close> becomes
  \<open>hr * (1 - dt/td) + spike[i] / (tr * td)\<close>, and the drive handed to the model is the
  new \<open>r\<close> times \<open>50\<close>, the amplitude written in the source.  A completed run starts from
  \<open>(0, 0)\<close>: its list of \<open>r\<close> is the recurrence from \<open>(0, 0)\<close>.  The reversed order gives
  the same pair only when \<open>dt * (sp / (tr * td) - hr * dt / td) = 0\<close>; at the first impulse
  (\<open>hr = 0\<close>, \<open>sp = 1\<close>) it gives another one.
\<close>

theorem synapse_update_order:
  "(body dt' tr td spike i s = Inr s' \<longrightarrow>
      r s' = r s * (1 - dt' / tr) + hr s * dt'
      \<and> hr s' = hr s * (1 - dt' / td) + spike ! i / (tr * td)
      \<and> (r s', hr s') = synapse_step dt' tr td (spike ! i) (r s, hr s)
      \<and> I_m (HH_neuron s') = Some (Finite (r s' * 50)))
   \<and> (simulation dt' T td tr spike_times solver' = Inr (X, rl, c) \<longrightarrow>
      (\<exists>spike. set_ones (replicate (nat (py_round (T / dt'))) 0) spike_times = Inr spike
         \<and> rl = map (\<lambda>i. fst (synapse dt' tr td spike (Suc i))) [0..<nat (py_round (T / dt'))]))
   \<and> (synapse_step_reversed dt' tr td sp (r0, hr0) = synapse_step dt' tr td sp (r0, hr0)
        \<longleftrightarrow> dt' * (sp / (tr * td) - hr0 * dt' / td) = 0)"
proof (intro conjI impI)
  assume b: "body dt' tr td spike i s = Inr s'"
  from body_Inr [OF b] show "r s' = r s * (1 - dt' / tr) + hr s * dt'"
    and "hr s' = hr s * (1 - dt' / td) + spike ! i / (tr * td)"
    by simp_all
  then show "(r s', hr s') = synapse_step dt' tr td (spike ! i) (r s, hr s)"
    by simp
  from body_Inr [OF b] obtain Y where "call (HH_neuron s) (Finite (r s' * 50)) = Inr (Y, HH_neuron s')"
    by blast
  then show "I_m (HH_neuron s') = Some (Finite (r s' * 50))"
    by (simp add: call_sets_I_m)
next
  assume "simulation dt' T td tr spike_times solver' = Inr (X, rl, c)"
  from simulation_Inr [OF this] obtain spike s0
    where sp: "set_ones (replicate (nat (py_round (T / dt'))) 0) spike_times = Inr spike"
      and lp: "loop dt' tr td spike [0..<nat (py_round (T / dt'))]
               (initial_cell (nat (py_round (T / dt'))) dt' solver') = Inr s0"
      and rl: "rl = r_list s0"
    by blast
  from loop_synapse [OF lp] have "r_list s0 =
      map (\<lambda>i. fst (synapse dt' tr td spike (Suc i))) [0..<nat (py_round (T / dt'))]"
    by (simp add: initial_cell_def)
  with sp rl
  show "\<exists>spike. set_ones (replicate (nat (py_round (T / dt'))) 0) spike_times = Inr spike
         \<and> rl = map (\<lambda>i. fst (synapse dt' tr td spike (Suc i))) [0..<nat (py_round (T / dt'))]"
    by blast
next
  show "synapse_step_reversed dt' tr td sp (r0, hr0) = synapse_step dt' tr td sp (r0, hr0)
        \<longleftrightarrow> dt' * (sp / (tr * td) - hr0 * dt' / td) = 0"
    by (auto simp add: Let_def algebra_simps)
qed


theorem synapse_update_order_witness:
  "(\<exists>s'. body 1 2 20 [1, 0] 0 (initial_cell 2 1 ''Euler'') = Inr s'
        \<and> r s' = 0 \<and> hr s' = 1 / 40 \<and> I_m (HH_neuron s') = Some (Finite 0))
   \<and> (\<exists>X c. simulation 1 2 20 2 [0] ''Euler'' = Inr (X, [0, 1 / 40], c))
   \<and> synapse_step_reversed 1 2 20 1 (0, 0) \<noteq> synapse_step 1 2 20 1 (0, 0)"
proof (intro conjI)
  from body_succeeds [of 2 20 0 "[1, 0]" "initial_cell 2 1 ''Euler''" _ 1]
  obtain s' where b: "body 1 2 20 [1, 0] 0 (initial_cell 2 1 ''Euler'') = Inr s'"
    by (auto simp add: initial_cell_def init_def known_solver_def)
  from synapse_update_order [of 1 2 20 "[1, 0]" 0 "initial_cell 2 1 ''Euler''" s'] b
  have "r s' = 0 \<and> hr s' = 1 / 40 \<and> I_m (HH_neuron s') = Some (Finite 0)"
    by (simp add: initial_cell_def)
  with b show "\<exists>s'. body 1 2 20 [1, 0] 0 (initial_cell 2 1 ''Euler'') = Inr s'
        \<and> r s' = 0 \<and> hr s' = 1 / 40 \<and> I_m (HH_neuron s') = Some (Finite 0)"
    by blast
next
  from simulation_succeeds [of 1 2 "[0]" 2 20 "''Euler''"]
  obtain X rl c where sim: "simulation 1 2 20 2 [0] ''Euler'' = Inr (X, rl, c)"
    by auto
  from synapse_update_order [of 1 2 20 _ _ _ _ 2 "[0]" "''Euler''" X rl c] sim
  have "rl = [0, 1 / 40]"
    by (simp add: numeral_2_eq_2 upt_rec)
  with sim show "\<exists>X c. simulation 1 2 20 2 [0] ''Euler'' = Inr (X, [0, 1 / 40], c)"
    by blast
next
  from synapse_update_order [of 1 2 20 _ _ _ _ _ _ _ _ _ _ 1 0 0]
  show "synapse_step_reversed 1 2 20 1 (0, 0) \<noteq> synapse_step 1 2 20 1 (0, 0)"
    by simp
qed

subsection \<open>Counting spikes\<close>

text \<open>
  Claim C7.  For every voltage trace \<open>V\<close> the count is the number of indices \<open>i\<close> with
  \<open>i + 1\<close> inside the trace, \<open>V[i] < 0\<close> and \<open>V[i+1] > 0\<close>, both strict; and the
  count a completed run returns is this count on the first column of the trajectory it
  returns, computed after the loop.
\<close>

theorem spike_count_is_upward_crossings:
  "spike_count V = card {i. i + 1 < length V \<and> V ! i < Finite 0 \<and> Finite 0 < V ! (i + 1)}
   \<and> (simulation dt' T td tr spike_times solver' = Inr (X, rl, c) \<longrightarrow> c = spike_count (map fst X))"
  using spike_count_card [of V] simulation_Inr [of dt' T td tr spike_times solver' X rl c]
  by auto

theorem spike_count_is_upward_crossings_witness:
  "card {i. i + 1 < length [Finite (-1), Finite 1, Finite (-1), Finite 0, Finite 1]
            \<and> [Finite (-1), Finite 1, Finite (-1), Finite 0, Finite 1] ! i < Finite 0
            \<and> Finite 0 < [Finite (-1), Finite 1, Finite (-1), Finite 0, Finite 1] ! (i + 1)} = 1
   \<and> (\<exists>X rl c. simulation 1 2 20 2 [0] ''Euler'' = Inr (X, rl, c) \<and> c = spike_count (map fst X))"
proof
  from spike_count_is_upward_crossings [of "[Finite (-1), Finite 1, Finite (-1), Finite 0, Finite 1]"]
  show "card {i. i + 1 < length [Finite (-1), Finite 1, Finite (-1), Finite 0, Finite 1]
            \<and> [Finite (-1), Finite 1, Finite (-1), Finite 0, Finite 1] ! i < Finite 0
            \<and> Finite 0 < [Finite (-1), Finite 1, Finite (-1), Finite 0, Finite 1] ! (i + 1)} = 1"
    by (simp add: spike_count_def)
next
  from simulation_succeeds [of 1 2 "[0]" 2 20 "''Euler''"]
  obtain X rl c where sim: "simulation 1 2 20 2 [0] ''Euler'' = Inr (X, rl, c)"
    by auto
  with spike_count_is_upward_crossings [of _ 1 2 20 2 "[0]" "''Euler''" X rl c]
  show "\<exists>X rl c. simulation 1 2 20 2 [0] ''Euler'' = Inr (X, rl, c) \<and> c = spike_count (map fst X)"
    by blast
qed

subsection \<open>What the setup checks\<close>

text \<open>
  Claim C8, as the source has it.  A step size of zero raises \<open>ZeroDivisionError\<close> when
  the number of steps is computed; a negative number of steps raises \<open>ValueError\<close> when
  the spike train is allocated; a spike time outside the train raises \<open>IndexError\<close>.
  Every other configuration with nonzero time constants and a known solver runs to its
  end, whatever the sign of \<open>dt\<close>.  The spike train of a run has exactly as many entries
  as the run has steps, and the constructor of the model keeps any \<open>dt\<close> it is given.
\<close>

theorem setup_checks:
  "simulation 0 T td tr spike_times solver' = Inl ZeroDivisionError
   \<and> (dt' \<noteq> 0 \<and> py_round (T / dt') < 0 \<longrightarrow>
        simulation dt' T td tr spike_times solver' = Inl ValueError)
   \<and> (dt' \<noteq> 0 \<and> 0 \<le> py_round (T / dt')
        \<and> (\<exists>k \<in> set spike_times. \<not> (- py_round (T / dt') \<le> k \<and> k < py_round (T / dt'))) \<longrightarrow>
        simulation dt' T td tr spike_times solver' = Inl IndexError)
   \<and> (dt' \<noteq> 0 \<and> 0 \<le> py_round (T / dt')
        \<and> (\<forall>k \<in> set spike_times. - py_round (T / dt') \<le> k \<and> k < py_round (T / dt'))
        \<and> tr \<noteq> 0 \<and> td \<noteq> 0 \<and> (solver' = ''RK4'' \<or> solver' = ''Euler'') \<longrightarrow>
        (\<exists>X rl c. simulation dt' T td tr spike_times solver' = Inr (X, rl, c)
           \<and> length X = nat (py_round (T / dt')) \<and> length rl = nat (py_round (T / dt'))))
   \<and> (simulation dt' T td tr spike_times solver' = Inr (X, rl, c) \<longrightarrow>
        (\<exists>spike. set_ones (replicate (nat (py_round (T / dt'))) 0) spike_times = Inr spike
           \<and> length spike = nat (py_round (T / dt'))))
   \<and> dt (init d solver') = d"
proof (intro conjI impI)
  show "simulation 0 T td tr spike_times solver' = Inl ZeroDivisionError"
    by (simp add: simulation_def)
  show "simulation dt' T td tr spike_times solver' = Inl ValueError"
    if "dt' \<noteq> 0 \<and> py_round (T / dt') < 0"
    using that by (simp add: simulation_def Let_def)
  show "simulation dt' T td tr spike_times solver' = Inl IndexError"
    if "dt' \<noteq> 0 \<and> 0 \<le> py_round (T / dt')
        \<and> (\<exists>k \<in> set spike_times. \<not> (- py_round (T / dt') \<le> k \<and> k < py_round (T / dt')))"
    using that by (intro simulation_spike_time_out_of_range) simp_all
  show "\<exists>X rl c. simulation dt' T td tr spike_times solver' = Inr (X, rl, c)
           \<and> length X = nat (py_round (T / dt')) \<and> length rl = nat (py_round (T / dt'))"
    if "dt' \<noteq> 0 \<and> 0 \<le> py_round (T / dt')
        \<and> (\<forall>k \<in> set spike_times. - py_round (T / dt') \<le> k \<and> k < py_round (T / dt'))
        \<and> tr \<noteq> 0 \<and> td \<noteq> 0 \<and> (solver' = ''RK4'' \<or> solver' = ''Euler'')"
    using that by (intro simulation_succeeds) simp_all
  show "\<exists>spike. set_ones (replicate (nat (py_round (T / dt'))) 0) spike_times = Inr spike
           \<and> length spike = nat (py_round (T / dt'))"
    if "simulation dt' T td tr spike_times solver' = Inr (X, rl, c)"
    using simulation_Inr [OF that]
      set_ones_length [of "replicate (nat (py_round (T / dt'))) 0" spike_times]
    by auto
  show "dt (init d solver') = d"
    by (simp add: init_def)
qed

theorem setup_checks_witness:
  "simulation 1 (-2) 20 2 [] ''Euler'' = Inl ValueError
   \<and> simulation 1 2 20 2 [2] ''Euler'' = Inl IndexError
   \<and> (\<exists>X rl c. simulation (-1) (-2) 20 2 [-1] ''RK4'' = Inr (X, rl, c) \<and> length X = 2 \<and> length rl = 2)
   \<and> (\<exists>spike. set_ones (replicate 2 0) [-1] = Inr spike \<and> length spike = 2)"
proof -
  from setup_checks [where dt' = "-1" and T = "-2" and td = 20 and tr = 2
      and spike_times = "[-1]" and solver' = "''RK4''"]
  have "\<exists>X rl c. simulation (-1) (-2) 20 2 [-1] ''RK4'' = Inr (X, rl, c)
      \<and> length X = 2 \<and> length rl = 2"
    by simp
  then obtain X rl c where sim: "simulation (-1) (-2) 20 2 [-1] ''RK4'' = Inr (X, rl, c)"
    and len: "length X = 2" "length rl = 2"
    by blast
  from setup_checks [where dt' = "-1" and T = "-2" and td = 20 and tr = 2
      and spike_times = "[-1]" and solver' = "''RK4''" and X = X and rl = rl and c = c] sim
  have "\<exists>spike. set_ones (replicate 2 0) [-1] = Inr spike \<and> length spike = 2"
    by simp
  with sim len
    setup_checks [where dt' = 1 and T = "-2" and td = 20 and tr = 2
      and spike_times = "[]" and solver' = "''Euler''"]
    setup_checks [where dt' = 1 and T = 2 and td = 20 and tr = 2
      and spike_times = "[2]" and solver' = "''Euler''"]
  show ?thesis
    by auto
qed

text \<open>
  The claim as stated fails: with \<open>dt = -4\<close> and \<open>T = 1\<close> the number of steps rounds
  to zero, nothing is raised, and the run returns an empty trajectory and the count \<open>0\<close>;
  with \<open>dt = -1\<close> and \<open>T = -2\<close> the run takes its two steps and raises nothing.
\<close>

theorem negative_dt_not_detected:
  "simulation (-4) 1 20 2 [] ''Euler'' = Inr ([], [], 0)
   \<and> \<not> isl (simulation (-1) (-2) 20 2 [0] ''Euler'')"
proof
  show "simulation (-4) 1 20 2 [] ''Euler'' = Inr ([], [], 0)"
    by (simp add: simulation_def py_round_def spike_count_def initial_cell_def)
  from simulation_succeeds [of "-1" "-2" "[0]" 2 20 "''Euler''"]
  show "\<not> isl (simulation (-1) (-2) 20 2 [0] ''Euler'')"
    by auto
qed

end
